theory Spec2Isabelle
  imports Main "HOL-Library.List_Lexorder"
begin

section \<open>Python values\<close>

text \<open>
  A Python \<open>str\<close> is a sequence of Unicode code points, so a character is a natural
  number and a string a list of them. \<open>cp\<close> turns an ASCII literal into that form.
  Strings are compared as Python compares them: code point by code point, a proper
  prefix first (the order of \<open>HOL-Library.List_Lexorder\<close>).
\<close>

type_synonym pychar = nat
type_synonym pystr = "pychar list"

definition cp :: "string \<Rightarrow> pystr" where
  "cp s = map of_char s"

text \<open>The exceptions that the modelled code can raise. \<open>HTTPException\<close> is Werkzeug's
  exception with its status code (404 from routing, 415 or 400 from \<open>get_json\<close>);
  Flask answers it with the framework's own error page of that status.\<close>

datatype py_error =
  AttributeError | IndexError | KeyError | TypeError | ValueError | HTTPException nat

text \<open>What \<open>request.get_json()\<close> hands to a view when the body is JSON: \<open>None\<close> (for
  the literal \<open>null\<close>), a bool, a number, a string, a list or a dict. A dict is kept as its list of items; numbers are the integers.\<close>

datatype json =
    JNull
  | JBool bool
  | JInt int
  | JStr pystr
  | JArr "json list"
  | JObj "(pystr \<times> json) list"

text \<open>A cell of the metadata table read by \<open>pd.read_csv\<close>: a number, a string or a
  missing value.\<close>

datatype cell = CInt int | CStr pystr | CNaN

record table =
  columns :: "pystr list"
  rows :: "cell list list"

text \<open>
  The parts of the Python runtime and of the third-party libraries that the module calls
  and whose tables or algorithms are not part of the repository:
  \<^item> \<open>lower_non_ascii pre c post\<close>: what \<open>str.lower\<close> writes for the non-ASCII character
    \<open>c\<close> standing between \<open>pre\<close> and \<open>post\<close> (the Unicode case mapping; the context
    matters for the final sigma);
  \<^item> \<open>xid_start\<close>, \<open>xid_continue\<close>: the Unicode identifier classes used by
    \<open>str.isidentifier\<close> beyond ASCII;
  \<^item> \<open>int_of_str\<close>: \<open>int(s)\<close> on a string, \<open>None\<close> where it raises \<open>ValueError\<close>;
  \<^item> \<open>argsort\<close>: \<open>ndarray.argsort()\<close>;
  \<^item> \<open>round4\<close>: \<open>round(float(x), 4)\<close>.
  The scores are values of a linear order \<open>'a\<close>.
\<close>

record 'a library =
  lower_non_ascii :: "pystr \<Rightarrow> pychar \<Rightarrow> pystr \<Rightarrow> pystr"
  xid_start :: "pychar \<Rightarrow> bool"
  xid_continue :: "pychar \<Rightarrow> bool"
  int_of_str :: "pystr \<Rightarrow> int option"
  argsort :: "'a list \<Rightarrow> nat list"
  round4 :: "'a \<Rightarrow> 'a"

text \<open>
  The loaded models and data after start-up. \<open>similarities\<close> stands for lines 150 and 151:
  \<open>cosine_similarity(unsupervised_vectorizer.transform([text]), job_vectors).flatten()\<close>,
  one score for each row of \<open>job_vectors\<close>; \<open>classes\<close> is \<open>classifier.classes_\<close>.
\<close>

record 'a globals =
  job_metadata :: table
  similarities :: "pystr \<Rightarrow> 'a list"
  classes :: "pystr list"

section \<open>Responses and effects\<close>

record 'a recommendation =
  job_id :: int
  job_title :: cell
  description :: cell
  similarity_score :: 'a

datatype 'a body =
    Detail pystr
  | Recommendations "'a recommendation list"
  | Categories "pystr list"
  | Job "(pystr \<times> cell) list"

type_synonym 'a response = "nat \<times> 'a body"

text \<open>A view leaves a trace of the stages it ran and either raises or answers.\<close>

datatype event = View | Normalize | Vectorize | Rank

type_synonym 'a outcome = "event list \<times> (py_error + 'a response)"

section \<open>Environment and constants (lines 22 to 24)\<close>

definition getenv :: "(pystr \<rightharpoonup> pystr) \<Rightarrow> pystr \<Rightarrow> pystr \<Rightarrow> pystr" where
  "getenv environ key dflt = (case environ key of None \<Rightarrow> dflt | Some v \<Rightarrow> v)"

definition API_TOKEN :: "(pystr \<rightharpoonup> pystr) \<Rightarrow> pystr" where
  "API_TOKEN environ = getenv environ (cp ''API_TOKEN'') (cp ''default_token'')"

section \<open>The text normalizer (lines 90 to 95)\<close>

text \<open>\<open>\s\<close> of \<open>re\<close> on a \<open>str\<close> pattern and \<open>str.strip()\<close> use the same class of
  whitespace characters.\<close>

definition is_space :: "pychar \<Rightarrow> bool" where
  "is_space c \<longleftrightarrow>
     (9 \<le> c \<and> c \<le> 13) \<or> (28 \<le> c \<and> c \<le> 32) \<or> c = 133 \<or> c = 160 \<or> c = 5760 \<or>
     (8192 \<le> c \<and> c \<le> 8202) \<or> c = 8232 \<or> c = 8233 \<or> c = 8239 \<or> c = 8287 \<or> c = 12288"

definition is_lower_az :: "pychar \<Rightarrow> bool" where
  "is_lower_az c \<longleftrightarrow> 97 \<le> c \<and> c \<le> 122"

definition ascii_lower :: "pychar \<Rightarrow> pychar" where
  "ascii_lower c = (if 65 \<le> c \<and> c \<le> 90 then c + 32 else c)"

text \<open>\<open>text.lower()\<close>: an ASCII character is mapped by itself, any other one by the
  Unicode tables.\<close>

fun lower_from :: "(pystr \<Rightarrow> pychar \<Rightarrow> pystr \<Rightarrow> pystr) \<Rightarrow> pystr \<Rightarrow> pystr \<Rightarrow> pystr" where
  "lower_from ul pre [] = []"
| "lower_from ul pre (c # cs) =
     (if c < 128 then [ascii_lower c] else ul pre c cs) @ lower_from ul (pre @ [c]) cs"

definition str_lower :: "(pystr \<Rightarrow> pychar \<Rightarrow> pystr \<Rightarrow> pystr) \<Rightarrow> pystr \<Rightarrow> pystr" where
  "str_lower ul s = lower_from ul [] s"

text \<open>\<open>re.sub(r'[^a-z\s]', '', text)\<close>\<close>

definition sub_non_alpha :: "pystr \<Rightarrow> pystr" where
  "sub_non_alpha s = filter (\<lambda>c. is_lower_az c \<or> is_space c) s"

text \<open>\<open>re.sub(r'\s+', ' ', text)\<close>: every maximal run of whitespace becomes one space.\<close>

function sub_ws_runs :: "pystr \<Rightarrow> pystr" where
  "sub_ws_runs [] = []"
| "sub_ws_runs (c # cs) =
     (if is_space c then 32 # sub_ws_runs (dropWhile is_space cs) else c # sub_ws_runs cs)"
  by pat_completeness auto
termination
  by (relation "measure length") (auto simp: less_Suc_eq_le length_dropWhile_le)

definition str_strip :: "pystr \<Rightarrow> pystr" where
  "str_strip s = rev (dropWhile is_space (rev (dropWhile is_space s)))"

definition basic_preprocess :: "(pystr \<Rightarrow> pychar \<Rightarrow> pystr \<Rightarrow> pystr) \<Rightarrow> pystr \<Rightarrow> pystr" where
  "basic_preprocess ul text = str_strip (sub_ws_runs (sub_non_alpha (str_lower ul text)))"

text \<open>The shape the specification gives to a normalized text: only \<open>a\<close> to \<open>z\<close> and
  the space, no two spaces in a row, no space at either end.\<close>

fun no_double_space :: "pystr \<Rightarrow> bool" where
  "no_double_space (a # b # cs) = ((a \<noteq> 32 \<or> b \<noteq> 32) \<and> no_double_space (b # cs))"
| "no_double_space cs = True"

definition normalized :: "pystr \<Rightarrow> bool" where
  "normalized r \<longleftrightarrow>
     list_all (\<lambda>c. is_lower_az c \<or> c = 32) r \<and> no_double_space r \<and>
     (case r of [] \<Rightarrow> True | c # cs \<Rightarrow> c \<noteq> 32 \<and> last r \<noteq> 32)"

section \<open>The auth gate (lines 109 to 120)\<close>

text \<open>Of a request the gate reads \<open>request.method\<close> (the field \<open>request_method\<close>),
  \<open>request.endpoint\<close> (\<open>None\<close> when no route matched) and the \<open>Authorization\<close> header (\<open>None\<close> when it is not sent).\<close>

record request =
  request_method :: pystr
  endpoint :: "pystr option"
  authorization :: "pystr option"

abbreviation unauthorized :: "'a response" where
  "unauthorized \<equiv> (401, Detail (cp ''Unauthorized''))"

definition check_auth :: "pystr \<Rightarrow> request \<Rightarrow> 'a response option" where
  "check_auth token req =
     (if request_method req = cp ''OPTIONS'' then None
      else if endpoint req \<in> set [Some (cp ''root''), Some (cp ''healthcheck'')] then None
      else if authorization req = None \<or> the (authorization req) \<noteq> cp ''Bearer '' @ token
        then Some unauthorized
      else None)"

text \<open>Flask runs the \<open>before_request\<close> function first; a value other than \<open>None\<close> is
  the response and the matched view is not called.\<close>

definition full_dispatch_request ::
  "pystr \<Rightarrow> (request \<Rightarrow> 'a outcome) \<Rightarrow> request \<Rightarrow> 'a outcome" where
  "full_dispatch_request token view req =
     (case check_auth token req of
        Some r \<Rightarrow> ([], Inr r)
      | None \<Rightarrow> (View # fst (view req), snd (view req)))"

section \<open>Recommendations (lines 142 to 165)\<close>

subsection \<open>The request body\<close>

text \<open>\<open>not data\<close>: \<open>None\<close>, \<open>False\<close>, zero and the empty string, list and dict are
  false.\<close>

fun truthy :: "json \<Rightarrow> bool" where
  "truthy JNull = False"
| "truthy (JBool b) = b"
| "truthy (JInt i) = (i \<noteq> 0)"
| "truthy (JStr s) = (s \<noteq> [])"
| "truthy (JArr xs) = (xs \<noteq> [])"
| "truthy (JObj kvs) = (kvs \<noteq> [])"

fun is_substring :: "pystr \<Rightarrow> pystr \<Rightarrow> bool" where
  "is_substring t [] = (t = [])"
| "is_substring t (c # cs) = (take (length t) (c # cs) = t \<or> is_substring t cs)"

text \<open>\<open>key in data\<close> for a string \<open>key\<close>: a key of a dict, an element of a list, a
  substring of a string; any other value is not iterable.\<close>

fun py_contains :: "pystr \<Rightarrow> json \<Rightarrow> py_error + bool" where
  "py_contains k (JObj kvs) = Inr (map_of kvs k \<noteq> None)"
| "py_contains k (JArr xs) = Inr (JStr k \<in> set xs)"
| "py_contains k (JStr s) = Inr (is_substring k s)"
| "py_contains k v = Inl TypeError"

text \<open>\<open>data.get(key)\<close>: only a dict has the method.\<close>

fun py_get :: "json \<Rightarrow> pystr \<Rightarrow> py_error + json" where
  "py_get (JObj kvs) k = Inr (case map_of kvs k of None \<Rightarrow> JNull | Some v \<Rightarrow> v)"
| "py_get v k = Inl AttributeError"

abbreviation missing_text :: "'a response" where
  "missing_text \<equiv> (400, Detail (cp ''Missing 'text' in request body''))"

subsection \<open>Ranking (line 152)\<close>

text \<open>\<open>order[-5:][::-1]\<close>: the last five entries, or all when there are fewer,
  reversed.\<close>

definition top_indices :: "nat list \<Rightarrow> nat list" where
  "top_indices order = rev (drop (length order - 5) order)"

text \<open>What \<open>argsort\<close> promises of its result for the array \<open>xs\<close>: a permutation of the
  indices that lists the values in ascending order. The order among equal values is
  left open.\<close>

definition is_argsort :: "'a::linorder list \<Rightarrow> nat list \<Rightarrow> bool" where
  "is_argsort xs p \<longleftrightarrow> sort p = [0..<length xs] \<and> sorted (map (\<lambda>i. xs ! i) p)"

text \<open>One such function, the stable sort of the indices by their values.\<close>

definition stable_argsort :: "'a::linorder list \<Rightarrow> nat list" where
  "stable_argsort xs = sort_key (\<lambda>i. xs ! i) [0..<length xs]"

subsection \<open>Rows as named tuples (lines 153 and 162)\<close>

text \<open>\<open>job_metadata.iloc[top_indices]\<close> raises for a position past the last row.\<close>

fun iloc :: "cell list list \<Rightarrow> nat list \<Rightarrow> py_error + cell list list" where
  "iloc rs [] = Inr []"
| "iloc rs (i # js) =
     (if i < length rs
      then (case iloc rs js of Inl e \<Rightarrow> Inl e | Inr rest \<Rightarrow> Inr (rs ! i # rest))
      else Inl IndexError)"

text \<open>
  \<open>itertuples(index=False)\<close> builds its rows with
  \<open>collections.namedtuple("Pandas", columns, rename=True)\<close>. With \<open>rename=True\<close> a column
  name that is not an identifier, is a keyword, starts with an underscore or was seen
  before is replaced by the positional name \<open>_\<close> followed by its index.
\<close>

definition is_ascii_letter :: "pychar \<Rightarrow> bool" where
  "is_ascii_letter c \<longleftrightarrow> (65 \<le> c \<and> c \<le> 90) \<or> (97 \<le> c \<and> c \<le> 122)"

definition is_ascii_digit :: "pychar \<Rightarrow> bool" where
  "is_ascii_digit c \<longleftrightarrow> 48 \<le> c \<and> c \<le> 57"

definition id_start :: "('a, 'z) library_scheme \<Rightarrow> pychar \<Rightarrow> bool" where
  "id_start L c = (if c < 128 then is_ascii_letter c \<or> c = 95 else xid_start L c)"

definition id_continue :: "('a, 'z) library_scheme \<Rightarrow> pychar \<Rightarrow> bool" where
  "id_continue L c =
     (if c < 128 then is_ascii_letter c \<or> is_ascii_digit c \<or> c = 95 else xid_continue L c)"

definition isidentifier :: "('a, 'z) library_scheme \<Rightarrow> pystr \<Rightarrow> bool" where
  "isidentifier L s =
     (case s of [] \<Rightarrow> False | c # cs \<Rightarrow> id_start L c \<and> list_all (id_continue L) cs)"

definition kwlist :: "pystr list" where
  "kwlist = map cp
     [''False'', ''None'', ''True'', ''and'', ''as'', ''assert'', ''async'', ''await'',
      ''break'', ''class'', ''continue'', ''def'', ''del'', ''elif'', ''else'', ''except'',
      ''finally'', ''for'', ''from'', ''global'', ''if'', ''import'', ''in'', ''is'',
      ''lambda'', ''nonlocal'', ''not'', ''or'', ''pass'', ''raise'', ''return'', ''try'',
      ''while'', ''with'', ''yield'']"

definition iskeyword :: "pystr \<Rightarrow> bool" where
  "iskeyword s \<longleftrightarrow> s \<in> set kwlist"

function str_nat :: "nat \<Rightarrow> pystr" where
  "str_nat n = (if n < 10 then [48 + n] else str_nat (n div 10) @ [48 + n mod 10])"
  by pat_completeness auto
termination
  by (relation "measure id") auto

declare str_nat.simps [simp del]

definition positional :: "nat \<Rightarrow> pystr" where
  "positional i = 95 # str_nat i"

fun rename_from :: "('a, 'z) library_scheme \<Rightarrow> nat \<Rightarrow> pystr list \<Rightarrow> pystr list \<Rightarrow> pystr list" where
  "rename_from L i seen [] = []"
| "rename_from L i seen (n # ns) =
     (if \<not> isidentifier L n \<or> iskeyword n \<or> take 1 n = [95] \<or> n \<in> set seen
      then positional i else n) # rename_from L (Suc i) (n # seen) ns"

definition namedtuple_fields :: "('a, 'z) library_scheme \<Rightarrow> pystr list \<Rightarrow> pystr list" where
  "namedtuple_fields L cols = rename_from L 0 [] cols"

text \<open>A row of \<open>itertuples\<close>: the renamed fields paired with the cells. \<open>row.id\<close> is
  the attribute of that name, \<open>row._asdict()\<close> the dict of the pairs.\<close>

definition itertuples :: "('a, 'z) library_scheme \<Rightarrow> pystr list \<Rightarrow> cell list list \<Rightarrow> (pystr \<times> cell) list list" where
  "itertuples L cols rs = map (zip (namedtuple_fields L cols)) rs"

definition getattr :: "(pystr \<times> cell) list \<Rightarrow> pystr \<Rightarrow> py_error + cell" where
  "getattr row name = (case map_of row name of None \<Rightarrow> Inl AttributeError | Some v \<Rightarrow> Inr v)"

definition dict_get :: "(pystr \<times> cell) list \<Rightarrow> pystr \<Rightarrow> cell \<Rightarrow> cell" where
  "dict_get row key dflt = (case map_of row key of None \<Rightarrow> dflt | Some v \<Rightarrow> v)"

text \<open>\<open>int(x)\<close> and \<open>x[:300]\<close> on a cell.\<close>

fun py_int :: "('a, 'z) library_scheme \<Rightarrow> cell \<Rightarrow> py_error + int" where
  "py_int L (CInt i) = Inr i"
| "py_int L (CStr s) = (case int_of_str L s of None \<Rightarrow> Inl ValueError | Some i \<Rightarrow> Inr i)"
| "py_int L CNaN = Inl ValueError"

fun slice300 :: "cell \<Rightarrow> py_error + cell" where
  "slice300 (CStr s) = Inr (CStr (take 300 s))"
| "slice300 c = Inl TypeError"

subsection \<open>The response (lines 155 to 165)\<close>

definition recommendation_of :: "('a, 'z) library_scheme \<Rightarrow> 'a list \<Rightarrow> nat \<Rightarrow> (pystr \<times> cell) list \<Rightarrow> py_error + 'a recommendation" where
  "recommendation_of L sims idx row =
     (case getattr row (cp ''id'') of Inl e \<Rightarrow> Inl e | Inr v \<Rightarrow>
      case py_int L v of Inl e \<Rightarrow> Inl e | Inr i \<Rightarrow>
      case slice300 (dict_get row (cp ''Job Description'') (CStr [])) of Inl e \<Rightarrow> Inl e | Inr d \<Rightarrow>
      if idx < length sims
      then Inr \<lparr>job_id = i,
                job_title = dict_get row (cp ''Job Title'') (CStr (cp ''N/A'')),
                description = d,
                similarity_score = round4 L (sims ! idx)\<rparr>
      else Inl IndexError)"

fun collect :: "(py_error + 'b) list \<Rightarrow> py_error + 'b list" where
  "collect [] = Inr []"
| "collect (Inl e # xs) = Inl e"
| "collect (Inr x # xs) = (case collect xs of Inl e \<Rightarrow> Inl e | Inr ys \<Rightarrow> Inr (x # ys))"

definition recommendations :: "('a, 'z) library_scheme \<Rightarrow> table \<Rightarrow> 'a list \<Rightarrow> nat list \<Rightarrow> py_error + 'a recommendation list" where
  "recommendations L T sims idxs =
     (case iloc (rows T) idxs of
        Inl e \<Rightarrow> Inl e
      | Inr top_jobs \<Rightarrow>
          collect (map (\<lambda>(idx, row). recommendation_of L sims idx row)
                       (zip idxs (itertuples L (columns T) top_jobs))))"

text \<open>The view from line 146 on, for the value \<open>data\<close> that line 145 has read.\<close>

definition recommend_jobs :: "'a library \<Rightarrow> 'a globals \<Rightarrow> json \<Rightarrow> 'a outcome" where
  "recommend_jobs L G data =
     (if \<not> truthy data then ([], Inr missing_text)
      else case py_contains (cp ''text'') data of
        Inl e \<Rightarrow> ([], Inl e)
      | Inr False \<Rightarrow> ([], Inr missing_text)
      | Inr True \<Rightarrow>
         (case py_get data (cp ''text'') of
            Inl e \<Rightarrow> ([], Inl e)
          | Inr (JStr s) \<Rightarrow>
              (let text = basic_preprocess (lower_non_ascii L) s;
                   sims = similarities G text;
                   idxs = top_indices (argsort L sims)
               in ([Normalize, Vectorize, Rank],
                   case recommendations L (job_metadata G) sims idxs of
                     Inl e \<Rightarrow> Inl e
                   | Inr recs \<Rightarrow> Inr (200, Recommendations recs)))
          | Inr v \<Rightarrow> ([], Inl AttributeError)))"

subsection \<open>Reading the body (line 145)\<close>



section \<open>Categories (lines 184 to 192)\<close>

text \<open>\<open>sorted\<close> on strings cannot raise, so the \<open>except\<close> branch is never taken.\<close>

definition get_all_categories :: "('a, 'z) globals_scheme \<Rightarrow> 'a response" where
  "get_all_categories G = (200, Categories (sort (classes G)))"

section \<open>Job detail (lines 194 to 204)\<close>

abbreviation internal_error :: "'a response" where
  "internal_error \<equiv> (500, Detail (cp ''Internal Server Error''))"

abbreviation job_not_found :: "'a response" where
  "job_not_found \<equiv> (404, Detail (cp ''Job not found''))"

text \<open>\<open>job_metadata['id'] == job_id\<close> holds in the rows whose \<open>id\<close> cell is that
  number; a table without the column raises \<open>KeyError\<close>, which the handler turns into
  the 500 response.\<close>

definition id_matches :: "pystr list \<Rightarrow> int \<Rightarrow> cell list \<Rightarrow> bool" where
  "id_matches cols job r \<longleftrightarrow> map_of (zip cols r) (cp ''id'') = Some (CInt job)"

definition get_job_detail :: "('a, 'z) globals_scheme \<Rightarrow> int \<Rightarrow> 'a response" where
  "get_job_detail G job =
     (let T = job_metadata G in
      if cp ''id'' \<notin> set (columns T) then internal_error
      else case filter (id_matches (columns T) job) (rows T) of
             [] \<Rightarrow> job_not_found
           | r # rest \<Rightarrow> (200, Job (zip (columns T) r)))"

text \<open>
  The route of line 194 is \<open>/jobs/<int:job_id>\<close>. Werkzeug's \<open>int\<close> converter matches
  digits only, so the notation of a negative number matches no route: routing raises
  \<open>NotFound\<close>, Flask answers with its own 404 page and the view is not called. A number
  that is not negative reaches the view as \<open>job_id\<close>.
\<close>

definition jobs_route :: "('a, 'z) globals_scheme \<Rightarrow> int \<Rightarrow> py_error + 'a response" where
  "jobs_route G job =
     (if job < 0 then Inl (HTTPException 404) else Inr (get_job_detail G job))"

section \<open>Start-up: the \<open>id\<close> column (lines 76 to 79)\<close>

text \<open>
  A table read without an \<open>id\<close> column gets one from its row positions.
  \<open>reset_index\<close> puts the positions into a new first column named \<open>index\<close>, or
  \<open>level_0\<close> when the table already has a column \<open>index\<close>, and raises when that name
  is taken too (start-up then fails); \<open>rename\<close> turns every column named \<open>index\<close> into
  \<open>id\<close>.
\<close>

definition reset_index :: "table \<Rightarrow> py_error + table" where
  "reset_index T =
     (let name = (if cp ''index'' \<in> set (columns T) then cp ''level_0'' else cp ''index'') in
      if name \<in> set (columns T) then Inl ValueError
      else Inr \<lparr>columns = name # columns T,
                 rows = map (\<lambda>(i, r). CInt (int i) # r) (zip [0..<length (rows T)] (rows T))\<rparr>)"

definition rename_index :: "table \<Rightarrow> table" where
  "rename_index T =
     T\<lparr>columns := map (\<lambda>c. if c = cp ''index'' then cp ''id'' else c) (columns T)\<rparr>"

definition ensure_id :: "table \<Rightarrow> py_error + table" where
  "ensure_id T =
     (if cp ''id'' \<in> set (columns T) then Inr T
      else case reset_index T of Inl e \<Rightarrow> Inl e | Inr T' \<Rightarrow> Inr (rename_index T'))"

section \<open>Notions of the specification\<close>


text \<open>The data model's invariant on the metadata table: every row has an integer
  in its \<open>id\<close> column.\<close>

definition has_int_ids :: "table \<Rightarrow> bool" where
  "has_int_ids T =
     list_all (\<lambda>r. case map_of (zip (columns T) r) (cp ''id'') of
                       Some (CInt i) \<Rightarrow> True | _ \<Rightarrow> False) (rows T)"

text \<open>The \<open>id\<close> of a row, where it has one.\<close>

definition row_id :: "table \<Rightarrow> nat \<Rightarrow> int" where
  "row_id T i =
     (case map_of (zip (columns T) (rows T ! i)) (cp ''id'') of Some (CInt n) \<Rightarrow> n | _ \<Rightarrow> 0)"

section \<open>A small instance\<close>

text \<open>
  Six jobs with their scores in ten-thousandths, two of them with the same \<open>id\<close>, and
  an instance of the library that sorts stably, rounds nothing and knows no character
  beyond ASCII. The concrete checks below are evaluated on it.
\<close>

definition example_metadata :: table where
  "example_metadata =
     \<lparr>columns = [cp ''id'', cp ''Job Title'', cp ''Job Description'', cp ''company''],
      rows =
       [[CInt 10, CStr (cp ''Data Engineer''), CStr (cp ''Builds pipelines''), CStr (cp ''Acme'')],
        [CInt 11, CStr (cp ''Nurse''), CStr (cp ''Cares for patients''), CStr (cp ''Clinic'')],
        [CInt 12, CStr (cp ''Accountant''), CStr (cp ''Keeps the books''), CStr (cp ''Ledger'')],
        [CInt 13, CStr (cp ''Chef''), CStr (cp ''Runs the kitchen''), CStr (cp ''Bistro'')],
        [CInt 12, CStr (cp ''Auditor''), CStr (cp ''Checks the books''), CStr (cp ''Ledger'')],
        [CInt 15, CStr (cp ''Teacher''), CStr (cp ''Teaches''), CStr (cp ''School'')]]\<rparr>"

definition example_library :: "int library" where
  "example_library =
     \<lparr>lower_non_ascii = (\<lambda>pre c post. [c]),
      xid_start = (\<lambda>c. False),
      xid_continue = (\<lambda>c. False),
      int_of_str = (\<lambda>s. None),
      argsort = stable_argsort,
      round4 = (\<lambda>x. x)\<rparr>"

definition example_globals :: "int globals" where
  "example_globals =
     \<lparr>job_metadata = example_metadata,
      similarities = (\<lambda>text. [1200, 8700, 4500, 8700, 300, 6000]),
      classes = [cp ''Sales'', cp ''Engineering'', cp ''HR'', cp ''Engineer'']\<rparr>"

section \<open>Properties of the text normalizer\<close>

lemma is_space_32: "is_space 32"
  by (simp add: is_space_def)

lemma az_not_space: "is_lower_az c \<Longrightarrow> \<not> is_space c"
  by (auto simp: is_lower_az_def is_space_def)

lemma set_sub_ws_runs: "set (sub_ws_runs s) \<subseteq> insert 32 {c \<in> set s. \<not> is_space c}"
proof (induction s rule: sub_ws_runs.induct)
  case 1
  show ?case by simp
next
  case (2 c cs)
  show ?case
  proof (cases "is_space c")
    case True
    with 2 have "set (sub_ws_runs (dropWhile is_space cs))
        \<subseteq> insert 32 {x \<in> set (dropWhile is_space cs). \<not> is_space x}" by simp
    moreover have "set (dropWhile is_space cs) \<subseteq> set cs" by (rule set_dropWhileD[THEN subsetI]) 
    ultimately show ?thesis using True by auto
  next
    case False
    with 2 show ?thesis by auto
  qed
qed

lemma hd_sub_ws_runs: "s \<noteq> [] \<Longrightarrow> \<not> is_space (hd s) \<Longrightarrow> sub_ws_runs s \<noteq> [] \<and> hd (sub_ws_runs s) = hd s"
  by (cases s) auto

lemma no_double_space_Cons:
  "no_double_space xs \<Longrightarrow> xs = [] \<or> hd xs \<noteq> 32 \<or> a \<noteq> 32 \<Longrightarrow> no_double_space (a # xs)"
  by (cases xs) auto

lemma no_double_space_sub_ws_runs: "no_double_space (sub_ws_runs s)"
proof (induction s rule: sub_ws_runs.induct)
  case 1
  show ?case by simp
next
  case (2 c cs)
  show ?case
  proof (cases "is_space c")
    case True
    let ?d = "dropWhile is_space cs"
    have nd: "no_double_space (sub_ws_runs ?d)" using 2 True by simp
    have "sub_ws_runs ?d = [] \<or> hd (sub_ws_runs ?d) \<noteq> 32"
    proof (cases "?d = []")
      case True
      then have "sub_ws_runs ?d = []" by (simp only: sub_ws_runs.simps)
      then show ?thesis by (rule disjI1)
    next
      case False
      then have "\<not> is_space (hd ?d)" by (rule hd_dropWhile)
      with False hd_sub_ws_runs[of ?d] is_space_32 show ?thesis by auto
    qed
    with nd have "no_double_space (32 # sub_ws_runs ?d)"
      by (intro no_double_space_Cons) auto
    with True show ?thesis by simp
  next
    case False
    have nd: "no_double_space (sub_ws_runs cs)" using 2 False by simp
    have "c \<noteq> 32" using False is_space_32 by auto
    with nd have "no_double_space (c # sub_ws_runs cs)"
      by (intro no_double_space_Cons) auto
    with False show ?thesis by simp
  qed
qed

lemma no_double_space_appendD2: "no_double_space (xs @ ys) \<Longrightarrow> no_double_space ys"
proof (induction xs)
  case Nil
  then show ?case by simp
next
  case (Cons a xs)
  then show ?case by (cases "xs @ ys") auto
qed

lemma no_double_space_appendD1: "no_double_space (xs @ ys) \<Longrightarrow> no_double_space xs"
proof (induction xs rule: no_double_space.induct)
  case (1 a b cs)
  then show ?case by simp
qed simp_all

lemma str_strip_decomp: "\<exists>pre post. s = pre @ str_strip s @ post"
proof -
  let ?t = "dropWhile is_space s"
  have "s = takeWhile is_space s @ ?t" by simp
  moreover have "rev ?t = takeWhile is_space (rev ?t) @ dropWhile is_space (rev ?t)" by simp
  then have "?t = rev (dropWhile is_space (rev ?t)) @ rev (takeWhile is_space (rev ?t))"
    by (metis rev_append rev_rev_ident)
  ultimately have "s = takeWhile is_space s @ str_strip s @ rev (takeWhile is_space (rev ?t))"
    by (simp add: str_strip_def)
  then show ?thesis by blast
qed

lemma no_double_space_strip: "no_double_space s \<Longrightarrow> no_double_space (str_strip s)"
  using str_strip_decomp[of s] no_double_space_appendD1 no_double_space_appendD2 by metis

lemma set_str_strip: "set (str_strip s) \<subseteq> set s"
  using str_strip_decomp[of s] by (metis Un_upper1 Un_upper2 set_append subset_trans)

lemma dropWhile_id: "xs \<noteq> [] \<Longrightarrow> \<not> P (hd xs) \<Longrightarrow> dropWhile P xs = xs"
  by (cases xs) auto

lemma last_str_strip:
  assumes "str_strip s \<noteq> []"
  shows "\<not> is_space (last (str_strip s))"
proof -
  let ?d = "dropWhile is_space (rev (dropWhile is_space s))"
  have d: "?d \<noteq> []" using assms by (simp only: str_strip_def rev_is_Nil_conv not_False_eq_True)
  have "last (str_strip s) = hd ?d" using d by (simp only: str_strip_def last_rev)
  with hd_dropWhile[OF d] show ?thesis by simp
qed

lemma dropWhile_last: "dropWhile P xs \<noteq> [] \<Longrightarrow> last (dropWhile P xs) = last xs"
  by (induction xs) auto

lemma hd_str_strip: "str_strip s \<noteq> [] \<Longrightarrow> \<not> is_space (hd (str_strip s))"
proof -
  assume ne: "str_strip s \<noteq> []"
  let ?t = "dropWhile is_space s"
  have d: "dropWhile is_space (rev ?t) \<noteq> []"
    using ne by (simp only: str_strip_def rev_is_Nil_conv not_False_eq_True)
  have t: "?t \<noteq> []"
  proof
    assume "?t = []"
    then have "dropWhile is_space (rev ?t) = []" by (simp only: rev.simps dropWhile.simps)
    with d show False by contradiction
  qed
  have "hd (str_strip s) = last (dropWhile is_space (rev ?t))"
    using d by (simp add: str_strip_def hd_rev)
  also have "\<dots> = last (rev ?t)" using d by (rule dropWhile_last)
  also have "\<dots> = hd ?t" using t by (simp add: last_rev)
  finally show ?thesis using hd_dropWhile[OF t] by simp
qed

lemma normalized_basic_preprocess: "normalized (basic_preprocess ul s)"
proof -
  let ?f = "sub_non_alpha (str_lower ul s)"
  let ?w = "sub_ws_runs ?f"
  let ?r = "str_strip ?w"
  have f: "\<forall>c\<in>set ?f. is_lower_az c \<or> is_space c" by (simp add: sub_non_alpha_def)
  have w: "\<forall>c\<in>set ?w. is_lower_az c \<or> c = 32"
    using f set_sub_ws_runs[of ?f] by auto
  have r1: "list_all (\<lambda>c. is_lower_az c \<or> c = 32) ?r"
    using w set_str_strip[of ?w] by (auto simp: list_all_iff)
  have r2: "no_double_space ?r"
    by (rule no_double_space_strip) (rule no_double_space_sub_ws_runs)
  have r3: "?r \<noteq> [] \<Longrightarrow> hd ?r \<noteq> 32 \<and> last ?r \<noteq> 32"
    using hd_str_strip[of ?w] last_str_strip[of ?w] is_space_32 by auto
  have "case ?r of [] \<Rightarrow> True | c # cs \<Rightarrow> c \<noteq> 32 \<and> last ?r \<noteq> 32"
    using r3 by (cases ?r) auto
  with r1 r2 show ?thesis by (simp add: normalized_def basic_preprocess_def)
qed

lemma lower_from_fixed:
  "\<forall>c\<in>set s. is_lower_az c \<or> c = 32 \<Longrightarrow> lower_from ul pre s = s"
  by (induction s arbitrary: pre) (auto simp: is_lower_az_def ascii_lower_def)

lemma sub_ws_runs_fixed:
  "\<forall>c\<in>set s. is_lower_az c \<or> c = 32 \<Longrightarrow> no_double_space s \<Longrightarrow> sub_ws_runs s = s"
proof (induction s rule: sub_ws_runs.induct)
  case 1
  show ?case by simp
next
  case (2 c cs)
  have nd: "no_double_space cs" using "2.prems"(2) no_double_space_appendD2[of "[c]" cs] by simp
  show ?case
  proof (cases "is_space c")
    case True
    then have c: "c = 32" using "2.prems"(1) az_not_space by auto
    have "dropWhile is_space cs = cs"
    proof (cases cs)
      case Nil
      then show ?thesis by simp
    next
      case (Cons b bs)
      then have "b \<noteq> 32" using "2.prems"(2) c by simp
      then have "\<not> is_space b" using "2.prems"(1) Cons az_not_space by auto
      with Cons show ?thesis by simp
    qed
    with 2 True nd c show ?thesis by simp
  next
    case False
    with 2 nd show ?thesis by simp
  qed
qed

lemma str_strip_fixed:
  assumes "s = [] \<or> (\<not> is_space (hd s) \<and> \<not> is_space (last s))"
  shows "str_strip s = s"
proof (cases "s = []")
  case True
  then show ?thesis by (simp add: str_strip_def)
next
  case False
  with assms have h: "\<not> is_space (hd s)" and l: "\<not> is_space (last s)" by auto
  have 1: "dropWhile is_space s = s" using False h by (rule dropWhile_id)
  have "rev s \<noteq> []" using False by simp
  moreover have "\<not> is_space (hd (rev s))" using False l by (simp add: hd_rev)
  ultimately have "dropWhile is_space (rev s) = rev s" by (rule dropWhile_id)
  with 1 show ?thesis by (simp add: str_strip_def)
qed

lemma normalized_fixed: assumes "normalized r" shows "basic_preprocess ul r = r"
proof -
  have a: "\<forall>c\<in>set r. is_lower_az c \<or> c = 32" and nd: "no_double_space r"
    using assms by (auto simp: normalized_def list_all_iff)
  have e: "r = [] \<or> (hd r \<noteq> 32 \<and> last r \<noteq> 32)"
    using assms by (cases r) (auto simp: normalized_def)
  have 1: "str_lower ul r = r" using a by (simp add: str_lower_def lower_from_fixed)
  have 2: "sub_non_alpha r = r" using a is_space_32 by (auto simp: sub_non_alpha_def filter_id_conv)
  have 3: "sub_ws_runs r = r" using a nd by (rule sub_ws_runs_fixed)
  have "r = [] \<or> (\<not> is_space (hd r) \<and> \<not> is_space (last r))"
  proof (cases "r = []")
    case True then show ?thesis by simp
  next
    case False
    then have "hd r \<in> set r" "last r \<in> set r" by auto
    with a e False az_not_space show ?thesis by blast
  qed
  then have 4: "str_strip r = r" by (rule str_strip_fixed)
  show ?thesis by (simp add: basic_preprocess_def 1 2 3 4)
qed

lemmas norm_eval = basic_preprocess_def str_strip_def sub_non_alpha_def str_lower_def cp_def
  is_space_def is_lower_az_def ascii_lower_def

text \<open>
  C5. The normalizer is defined on every string (it is a total function that cannot
  raise), it is the composition of lowercasing, removing every character that is neither
  a lowercase ASCII letter nor whitespace, collapsing the whitespace runs and trimming,
  and its result consists of the letters \<open>a\<close> to \<open>z\<close> and the space only, with no two
  spaces in a row and no space at either end.
\<close>

theorem basic_preprocess_shape:
  "basic_preprocess ul s = str_strip (sub_ws_runs (sub_non_alpha (str_lower ul s))) \<and>
   normalized (basic_preprocess ul s)"
  by (simp add: normalized_basic_preprocess) (simp add: basic_preprocess_def)

theorem basic_preprocess_shape_witness:
  "basic_preprocess (\<lambda>pre c post. []) (cp ''  Hello,  World 42! ok '') = cp ''hello world ok'' \<and>
   normalized (cp ''hello world ok'')"
proof -
  have e: "basic_preprocess (\<lambda>pre c post. []) (cp ''  Hello,  World 42! ok '') = cp ''hello world ok''"
    by (simp add: norm_eval)
  show ?thesis
    using basic_preprocess_shape [of "\<lambda>pre c post. []" "cp ''  Hello,  World 42! ok ''", THEN conjunct2]
    unfolding e by simp
qed

text \<open>
  C6. The normalizer is idempotent: normalizing a normalized text returns it unchanged.
\<close>

theorem basic_preprocess_idempotent:
  "basic_preprocess ul (basic_preprocess ul s) = basic_preprocess ul s"
  by (rule normalized_fixed) (rule normalized_basic_preprocess)

theorem basic_preprocess_idempotent_witness:
  "basic_preprocess (\<lambda>pre c post. []) (cp ''  Hello,  World 42! ok '') = cp ''hello world ok'' \<and>
   basic_preprocess (\<lambda>pre c post. []) (cp ''hello world ok'') = cp ''hello world ok''"
proof -
  have e: "basic_preprocess (\<lambda>pre c post. []) (cp ''  Hello,  World 42! ok '') = cp ''hello world ok''"
    by (simp add: norm_eval)
  show ?thesis
    using basic_preprocess_idempotent [of "\<lambda>pre c post. []" "cp ''  Hello,  World 42! ok ''"]
    unfolding e by simp
qed

section \<open>Properties of the auth gate\<close>

text \<open>
  C2. The gate lets every \<open>OPTIONS\<close> request through, and every request whose matched
  route is the status page (\<open>root\<close>) or the health check. Any other request passes only
  when its \<open>Authorization\<close> header is present and equal to \<open>Bearer\<close>, a space and the
  configured token; otherwise the gate answers 401 with the detail \<open>Unauthorized\<close>, and
  the dispatch returns that answer with an empty trace: the view is not called.
\<close>

theorem check_auth_gate:
  fixes view :: "request \<Rightarrow> 'a outcome"
  shows
  "(request_method req = cp ''OPTIONS'' \<longrightarrow> (check_auth token req :: 'a response option) = None) \<and>
   (endpoint req = Some (cp ''root'') \<or> endpoint req = Some (cp ''healthcheck'') \<longrightarrow>
      (check_auth token req :: 'a response option) = None) \<and>
   (request_method req \<noteq> cp ''OPTIONS'' \<and> endpoint req \<noteq> Some (cp ''root'') \<and>
    endpoint req \<noteq> Some (cp ''healthcheck'') \<longrightarrow>
      (if authorization req = Some (cp ''Bearer '' @ token)
       then (check_auth token req :: 'a response option) = None
       else (check_auth token req :: 'a response option) = Some (401, Detail (cp ''Unauthorized'')) \<and>
            full_dispatch_request token view req = ([], Inr (401, Detail (cp ''Unauthorized'')))))"
  by (cases "authorization req")
     (auto simp: check_auth_def full_dispatch_request_def)


theorem check_auth_gate_witness:
  "check_auth (cp ''s3cret'')
     \<lparr>request_method = cp ''OPTIONS'', endpoint = Some (cp ''recommend_jobs''), authorization = None\<rparr>
     = (None :: int response option) \<and>
   check_auth (cp ''s3cret'')
     \<lparr>request_method = cp ''GET'', endpoint = Some (cp ''healthcheck''), authorization = None\<rparr>
     = (None :: int response option) \<and>
   check_auth (cp ''s3cret'')
     \<lparr>request_method = cp ''GET'', endpoint = Some (cp ''get_all_categories''),
      authorization = Some (cp ''Bearer s3cret'')\<rparr>
     = (None :: int response option) \<and>
   full_dispatch_request (cp ''s3cret'') (\<lambda>r. ([], Inr (200, Categories [])))
     \<lparr>request_method = cp ''GET'', endpoint = Some (cp ''get_all_categories''),
      authorization = Some (cp ''bearer s3cret'')\<rparr>
     = ([], Inr (401, Detail (cp ''Unauthorized'') :: int body))"
proof -
  let ?v = "(\<lambda>r. ([], Inr (200, Categories []))) :: request \<Rightarrow> int outcome"
  let ?t = "cp ''s3cret''"
  have 1: "check_auth ?t
     \<lparr>request_method = cp ''OPTIONS'', endpoint = Some (cp ''recommend_jobs''), authorization = None\<rparr>
     = (None :: int response option)"
    using check_auth_gate [of
      "\<lparr>request_method = cp ''OPTIONS'', endpoint = Some (cp ''recommend_jobs''), authorization = None\<rparr>"
      ?t ?v]
    by simp
  have 2: "check_auth ?t
     \<lparr>request_method = cp ''GET'', endpoint = Some (cp ''healthcheck''), authorization = None\<rparr>
     = (None :: int response option)"
    using check_auth_gate [of
      "\<lparr>request_method = cp ''GET'', endpoint = Some (cp ''healthcheck''), authorization = None\<rparr>"
      ?t ?v]
    by simp
  have 3: "check_auth ?t
     \<lparr>request_method = cp ''GET'', endpoint = Some (cp ''get_all_categories''),
      authorization = Some (cp ''Bearer s3cret'')\<rparr>
     = (None :: int response option)"
    using check_auth_gate [of
      "\<lparr>request_method = cp ''GET'', endpoint = Some (cp ''get_all_categories''),
        authorization = Some (cp ''Bearer s3cret'')\<rparr>"
      ?t ?v]
    by (simp add: cp_def)
  have 4: "full_dispatch_request ?t ?v
     \<lparr>request_method = cp ''GET'', endpoint = Some (cp ''get_all_categories''),
      authorization = Some (cp ''bearer s3cret'')\<rparr>
     = ([], Inr (401, Detail (cp ''Unauthorized'')))"
    using check_auth_gate [of
      "\<lparr>request_method = cp ''GET'', endpoint = Some (cp ''get_all_categories''),
        authorization = Some (cp ''bearer s3cret'')\<rparr>"
      ?t ?v]
    by (simp add: cp_def)
  from 1 2 3 4 show ?thesis by (intro conjI)
qed

text \<open>
  C9. When the environment has no \<open>API_TOKEN\<close>, the token is \<open>default_token\<close>: the gate
  accepts the header \<open>Bearer default_token\<close> on every route, and a request with another
  header, or none, is refused unless it is exempt from the check.
\<close>

theorem default_token_accepted:
  assumes "environ (cp ''API_TOKEN'') = None"
  shows "API_TOKEN environ = cp ''default_token'' \<and>
         (if authorization req = Some (cp ''Bearer default_token'')
          then (check_auth (API_TOKEN environ) req :: 'a response option) = None
          else request_method req = cp ''OPTIONS'' \<or> endpoint req = Some (cp ''root'') \<or>
               endpoint req = Some (cp ''healthcheck'') \<or>
               (check_auth (API_TOKEN environ) req :: 'a response option) = Some (401, Detail (cp ''Unauthorized'')))"
proof -
  have t: "API_TOKEN environ = cp ''default_token''"
    using assms by (simp add: API_TOKEN_def getenv_def)
  have b: "cp ''Bearer '' @ cp ''default_token'' = cp ''Bearer default_token''"
    by (simp add: cp_def)
  show ?thesis
    unfolding t by (cases "authorization req") (auto simp: check_auth_def b)
qed


theorem default_token_accepted_witness:
  "API_TOKEN [cp ''BUCKET_NAME'' \<mapsto> cp ''jobmate-models''] = cp ''default_token'' \<and>
   check_auth (API_TOKEN [cp ''BUCKET_NAME'' \<mapsto> cp ''jobmate-models''])
     \<lparr>request_method = cp ''POST'', endpoint = Some (cp ''recommend_jobs''),
      authorization = Some (cp ''Bearer default_token'')\<rparr> = (None :: int response option)"
proof -
  have "[cp ''BUCKET_NAME'' \<mapsto> cp ''jobmate-models''] (cp ''API_TOKEN'') = None"
    by (simp add: cp_def)
  from default_token_accepted [where ?'a = int, of "[cp ''BUCKET_NAME'' \<mapsto> cp ''jobmate-models'']"
      "\<lparr>request_method = cp ''POST'', endpoint = Some (cp ''recommend_jobs''),
        authorization = Some (cp ''Bearer default_token'')\<rparr>", OF this]
  show ?thesis by auto
qed

section \<open>Properties of the job detail lookup\<close>


lemmas example_eval = example_globals_def example_metadata_def example_library_def

text \<open>Whatever table start-up keeps has the \<open>id\<close> column.\<close>

lemma ensure_id_has_id:
  assumes "ensure_id T = Inr T'"
  shows "cp ''id'' \<in> set (columns T')"
proof (cases "cp ''id'' \<in> set (columns T)")
  case True
  with assms show ?thesis by (simp add: ensure_id_def)
next
  case False
  show ?thesis
  proof (cases "cp ''index'' \<in> set (columns T)")
    case True
    with assms False show ?thesis
      by (auto simp: ensure_id_def reset_index_def rename_index_def Let_def split: if_splits)
  next
    case i: False
    with assms False show ?thesis
      by (auto simp: ensure_id_def reset_index_def rename_index_def Let_def split: if_splits)
  qed
qed

text \<open>The answers of the view, once it is called with \<open>job_id\<close>.\<close>

lemma get_job_detail_answers:
  assumes "cp ''id'' \<in> set (columns (job_metadata G))"
  shows "((get_job_detail G job :: 'a response) = (404, Detail (cp ''Job not found'')) \<longleftrightarrow>
            \<not> (\<exists>r\<in>set (rows (job_metadata G)). id_matches (columns (job_metadata G)) job r)) \<and>
         (\<forall>r. filter (id_matches (columns (job_metadata G)) job) (rows (job_metadata G)) = [r] \<longrightarrow>
            (get_job_detail G job :: 'a response) = (200, Job (zip (columns (job_metadata G)) r)))"
proof -
  let ?T = "job_metadata G"
  let ?m = "filter (id_matches (columns ?T) job) (rows ?T)"
  have e: "(?m = []) = (\<not> (\<exists>r\<in>set (rows ?T). id_matches (columns ?T) job r))"
    by (simp add: filter_empty_conv)
  show ?thesis
    using assms e
    by (auto simp: get_job_detail_def Let_def split: list.splits)
qed

text \<open>
  C4, as stated. No row of the instance has the \<open>id\<close> \<open>-5\<close>, and yet \<open>GET /jobs/-5\<close> is
  not answered with 404 and the detail \<open>Job not found\<close>: the route does not match a
  negative number, so the answer is the 404 page of the framework and the view is not
  called.
\<close>

theorem jobs_route_negative_id:
  "filter (id_matches (columns (job_metadata example_globals)) (- 5))
     (rows (job_metadata example_globals)) = [] \<and>
   jobs_route example_globals (- 5) = Inl (HTTPException 404) \<and>
   jobs_route example_globals (- 5) \<noteq> Inr (404, Detail (cp ''Job not found''))"
  by (simp add: jobs_route_def example_eval id_matches_def cp_def)

text \<open>
  C4, amended. With the \<open>id\<close> column that start-up guarantees and for every \<open>id\<close> that
  is not negative, \<open>GET /jobs/{id}\<close> answers 404 with the detail \<open>Job not found\<close> exactly
  when no row of the metadata table has that \<open>id\<close>; and when exactly one row has it, the
  answer is 200 with that row, every column paired with its cell. For a negative \<open>id\<close>
  the route does not match: the answer is the 404 of the framework, whatever the table
  holds.
\<close>

theorem jobs_route_lookup:
  assumes "cp ''id'' \<in> set (columns (job_metadata G))"
  shows "if 0 \<le> job
         then ((jobs_route G job :: py_error + 'a response) = Inr (404, Detail (cp ''Job not found'')) \<longleftrightarrow>
                 \<not> (\<exists>r\<in>set (rows (job_metadata G)). id_matches (columns (job_metadata G)) job r)) \<and>
              (\<forall>r. filter (id_matches (columns (job_metadata G)) job) (rows (job_metadata G)) = [r] \<longrightarrow>
                 (jobs_route G job :: py_error + 'a response) = Inr (200, Job (zip (columns (job_metadata G)) r)))
         else (jobs_route G job :: py_error + 'a response) = Inl (HTTPException 404)"
proof (cases "0 \<le> job")
  case True
  then have r: "(jobs_route G job :: py_error + 'a response) = Inr (get_job_detail G job)"
    by (simp add: jobs_route_def)
  show ?thesis
    using True get_job_detail_answers [OF assms, of job] unfolding r
    by simp
next
  case False
  then show ?thesis by (simp add: jobs_route_def)
qed

theorem jobs_route_lookup_witness:
  "jobs_route example_globals 99 = Inr (404, Detail (cp ''Job not found'')) \<and>
   jobs_route example_globals 11 =
     Inr (200, Job [(cp ''id'', CInt 11), (cp ''Job Title'', CStr (cp ''Nurse'')),
                    (cp ''Job Description'', CStr (cp ''Cares for patients'')),
                    (cp ''company'', CStr (cp ''Clinic''))]) \<and>
   jobs_route example_globals (- 11) = Inl (HTTPException 404)"
proof -
  let ?T = "job_metadata example_globals"
  have c: "cp ''id'' \<in> set (columns ?T)"
    by (simp add: example_eval)
  have n: "\<not> (\<exists>r\<in>set (rows ?T). id_matches (columns ?T) 99 r)"
    by (simp add: example_eval id_matches_def cp_def)
  have f: "filter (id_matches (columns ?T) 11) (rows ?T) =
             [[CInt 11, CStr (cp ''Nurse''), CStr (cp ''Cares for patients''), CStr (cp ''Clinic'')]]"
    by (simp add: example_eval id_matches_def cp_def)
  have z: "zip (columns ?T) [CInt 11, CStr (cp ''Nurse''), CStr (cp ''Cares for patients''), CStr (cp ''Clinic'')]
           = [(cp ''id'', CInt 11), (cp ''Job Title'', CStr (cp ''Nurse'')),
              (cp ''Job Description'', CStr (cp ''Cares for patients'')),
              (cp ''company'', CStr (cp ''Clinic''))]"
    by (simp add: example_eval)
  note t = jobs_route_lookup [OF c]
  have 1: "jobs_route example_globals 99 = Inr (404, Detail (cp ''Job not found''))"
    using t [of 99] n by simp
  have 2: "jobs_route example_globals 11 =
     Inr (200, Job (zip (columns ?T) [CInt 11, CStr (cp ''Nurse''), CStr (cp ''Cares for patients''), CStr (cp ''Clinic'')]))"
    using t [of 11] f by simp
  have 3: "jobs_route example_globals (- 11) = Inl (HTTPException 404)"
    using t [of "- 11"] by simp
  show ?thesis using 1 2 3 unfolding z by (intro conjI)
qed



section \<open>Properties of the category list\<close>

text \<open>
  C7. \<open>GET /categories\<close> returns the labels of the classifier in strictly ascending
  lexicographic order, so without duplicates, and they are exactly the labels of the
  classifier (which a fitted classifier holds without repetition).
\<close>

theorem get_all_categories_sorted:
  assumes "distinct (classes G)"
  shows "\<exists>cs. (get_all_categories G :: 'a response) = (200, Categories cs) \<and>
           sorted_wrt (<) cs \<and> set cs = set (classes G)"
  using assms by (simp add: get_all_categories_def strict_sorted_iff)


theorem get_all_categories_sorted_witness:
  "get_all_categories example_globals =
     (200, Categories [cp ''Engineer'', cp ''Engineering'', cp ''HR'', cp ''Sales''])"
proof -
  let ?want = "[cp ''Engineer'', cp ''Engineering'', cp ''HR'', cp ''Sales'']"
  have d: "distinct (classes example_globals)"
    by (simp add: example_eval cp_def)
  from get_all_categories_sorted [OF d]
  obtain cs where r: "get_all_categories example_globals = (200, Categories cs)"
    and s: "sorted_wrt (<) cs" and e: "set cs = set (classes example_globals)"
    by blast
  have w: "sorted_wrt (<) ?want"
    by (simp add: cp_def)
  have w': "sorted ?want \<and> distinct ?want"
    using w unfolding strict_sorted_iff .
  have s': "sorted cs \<and> distinct cs"
    using s unfolding strict_sorted_iff .
  have "set ?want = set (classes example_globals)"
    by (auto simp: example_eval)
  with e have "set cs = set ?want"
    by (simp only:)
  with s' w' have "cs = ?want"
    by (blast intro: sorted_distinct_set_unique)
  with r show ?thesis by (simp only:)
qed

section \<open>Properties of the recommendations\<close>

subsection \<open>The five best indices\<close>

lemma is_argsort_perm:
  assumes "is_argsort xs p"
  shows "length p = length xs" and "distinct p" and "set p = {..<length xs}"
proof -
  have s: "sort p = [0..<length xs]" using assms by (simp add: is_argsort_def)
  have "length (sort p) = length p" by simp
  with s show "length p = length xs" by simp
  have "distinct (sort p) = distinct p" by simp
  with s show "distinct p" by simp
  have "set (sort p) = set p" by simp
  with s show "set p = {..<length xs}" by (simp add: atLeast0LessThan)
qed

lemma length_top_indices: "length (top_indices p) = min 5 (length p)"
  by (simp add: top_indices_def)

lemma set_top_indices: "set (top_indices p) \<subseteq> set p"
  by (simp add: top_indices_def set_drop_subset)

lemma distinct_top_indices: "distinct p \<Longrightarrow> distinct (top_indices p)"
  by (simp add: top_indices_def)

lemma descending_top_indices:
  assumes "sorted (map f p)"
  shows "sorted_wrt (\<ge>) (map f (top_indices p))"
proof -
  have "sorted (drop (length p - 5) (map f p))"
    using assms by (rule sorted_wrt_drop)
  then have "sorted_wrt (\<ge>) (rev (drop (length p - 5) (map f p)))"
    by (simp add: sorted_wrt_rev)
  then show ?thesis
    by (simp add: top_indices_def rev_map drop_map)
qed

lemma top_indices_maximal:
  assumes s: "sorted (map f p)" and j: "j \<in> set p" "j \<notin> set (top_indices p)"
    and i: "i \<in> set (top_indices p)"
  shows "f j \<le> f i"
proof -
  let ?k = "length p - 5"
  have "set p = set (take ?k p) \<union> set (drop ?k p)"
    by (metis append_take_drop_id set_append)
  with j have jt: "j \<in> set (take ?k p)" by (auto simp: top_indices_def)
  have id: "i \<in> set (drop ?k p)" using i by (simp add: top_indices_def)
  have "sorted (map f (take ?k p) @ map f (drop ?k p))"
    using s by (metis append_take_drop_id map_append)
  then have "\<forall>x\<in>set (map f (take ?k p)). \<forall>y\<in>set (map f (drop ?k p)). x \<le> y"
    by (simp add: sorted_append)
  with jt id show ?thesis by auto
qed

subsection \<open>Rows, fields and records\<close>

lemma iloc_ok: "\<forall>i\<in>set idxs. i < length rs \<Longrightarrow> iloc rs idxs = Inr (map (\<lambda>i. rs ! i) idxs)"
  by (induction idxs) auto

lemma collect_ok: "\<forall>x\<in>set xs. f x = Inr (g x) \<Longrightarrow> collect (map f xs) = Inr (map g xs)"
  by (induction xs) auto

lemma id_is_identifier: "isidentifier L (cp ''id'')"
  by (simp add: isidentifier_def id_start_def id_continue_def is_ascii_letter_def cp_def)

lemma id_not_keyword: "\<not> iskeyword (cp ''id'')"
  by (simp add: iskeyword_def kwlist_def cp_def)

lemma id_not_positional: "positional i \<noteq> cp ''id''"
  by (simp add: positional_def cp_def)

lemma id_field_kept:
  "cp ''id'' \<notin> set seen \<Longrightarrow>
   map_of (zip (rename_from L i seen cols) r) (cp ''id'') = map_of (zip cols r) (cp ''id'')"
proof (induction cols arbitrary: i seen r)
  case Nil
  show ?case by simp
next
  case (Cons n ns)
  show ?case
  proof (cases r)
    case Nil
    then show ?thesis by simp
  next
    case (Cons c cs)
    have u: "take (Suc 0) (cp ''id'') \<noteq> [95]" by (simp add: cp_def)
    show ?thesis
    proof (cases "n = cp ''id''")
      case True
      with Cons Cons.prems show ?thesis by (simp add: id_is_identifier id_not_keyword u)
    next
      case False
      then have "cp ''id'' \<notin> set (n # seen)" using Cons.prems by simp
      from Cons.IH [OF this] have "map_of (zip (rename_from L (Suc i) (n # seen) ns) cs) (cp ''id'')
          = map_of (zip ns cs) (cp ''id'')" .
      with False Cons id_not_positional [of i] show ?thesis by auto
    qed
  qed
qed

lemma identifier_chars:
  "isidentifier L n \<Longrightarrow> c \<in> set n \<Longrightarrow> id_start L c \<or> id_continue L c"
  by (cases n) (auto simp: isidentifier_def list_all_iff)

lemma space_not_id_char: "\<not> id_start L 32 \<and> \<not> id_continue L 32"
  by (simp add: id_start_def id_continue_def is_ascii_letter_def is_ascii_digit_def)

lemma spaced_not_identifier: "32 \<in> set n \<Longrightarrow> \<not> isidentifier L n"
  using identifier_chars [of L n 32] space_not_id_char [of L] by blast

lemma spaced_not_field:
  assumes "32 \<in> set k" and "take 1 k \<noteq> [95]"
  shows "k \<notin> set (rename_from L i seen cols)"
proof (induction cols arbitrary: i seen)
  case Nil
  show ?case by simp
next
  case (Cons n ns)
  have "positional i \<noteq> k" using assms(2) by (cases k) (auto simp: positional_def)
  moreover have "isidentifier L n \<Longrightarrow> n \<noteq> k" using assms(1) spaced_not_identifier by blast
  ultimately show ?case using Cons by auto
qed

lemma spaced_key_absent:
  assumes "32 \<in> set k" and "take 1 k \<noteq> [95]"
  shows "map_of (zip (namedtuple_fields L cols) r) k = None"
proof -
  have "k \<notin> set (namedtuple_fields L cols)"
    unfolding namedtuple_fields_def using assms by (rule spaced_not_field)
  then have "k \<notin> fst ` set (zip (namedtuple_fields L cols) r)"
    by (auto dest: set_zip_leftD)
  then show ?thesis by (simp add: map_of_eq_None_iff)
qed

lemma title_absent: "map_of (zip (namedtuple_fields L cols) r) (cp ''Job Title'') = None"
  by (rule spaced_key_absent) (simp_all add: cp_def)

lemma description_absent: "map_of (zip (namedtuple_fields L cols) r) (cp ''Job Description'') = None"
  by (rule spaced_key_absent) (simp_all add: cp_def)

lemma recommendation_of_row:
  assumes "map_of (zip cols r) (cp ''id'') = Some (CInt n)" and "idx < length sims"
  shows "recommendation_of L sims idx (zip (namedtuple_fields L cols) r) =
           Inr \<lparr>job_id = n, job_title = CStr (cp ''N/A''), description = CStr [],
                similarity_score = round4 L (sims ! idx)\<rparr>"
proof -
  have "map_of (zip (namedtuple_fields L cols) r) (cp ''id'') = Some (CInt n)"
    using assms(1) id_field_kept [of "[]" L 0 cols r] by (simp add: namedtuple_fields_def)
  then show ?thesis
    using assms(2)
    by (simp add: recommendation_of_def getattr_def dict_get_def title_absent description_absent)
qed


text \<open>Whatever the table holds, a row of \<open>itertuples\<close> yields the default title and
  the empty description.\<close>

lemma recommendation_defaults:
  assumes "recommendation_of L sims idx (zip (namedtuple_fields L cols) r) = Inr rec"
  shows "job_title rec = CStr (cp ''N/A'') \<and> description rec = CStr []"
  using assms
  by (auto simp: recommendation_of_def dict_get_def title_absent description_absent
      split: sum.splits if_splits)

lemma zip_map_self: "zip xs (map f xs) = map (\<lambda>x. (x, f x)) xs"
  by (induction xs) auto

lemma int_id_row:
  assumes "has_int_ids T" and "i < length (rows T)"
  shows "map_of (zip (columns T) (rows T ! i)) (cp ''id'') = Some (CInt (row_id T i))"
proof -
  have "rows T ! i \<in> set (rows T)" using assms(2) by simp
  with assms(1) show ?thesis
    by (auto simp: has_int_ids_def row_id_def list_all_iff split: option.splits cell.splits)
qed

lemma recommendations_ok:
  assumes "\<forall>i\<in>set idxs. i < length (rows T) \<and> i < length sims" and "has_int_ids T"
  shows "recommendations L T sims idxs =
    Inr (map (\<lambda>i. \<lparr>job_id = row_id T i, job_title = CStr (cp ''N/A''), description = CStr [],
                     similarity_score = round4 L (sims ! i)\<rparr>) idxs)"
proof -
  let ?row = "\<lambda>i. zip (namedtuple_fields L (columns T)) (rows T ! i)"
  let ?rec = "\<lambda>i. \<lparr>job_id = row_id T i, job_title = CStr (cp ''N/A''), description = CStr [],
                     similarity_score = round4 L (sims ! i)\<rparr>"
  have 1: "iloc (rows T) idxs = Inr (map (\<lambda>i. rows T ! i) idxs)"
    using assms(1) by (intro iloc_ok) simp
  have 2: "zip idxs (itertuples L (columns T) (map (\<lambda>i. rows T ! i) idxs))
             = map (\<lambda>i. (i, ?row i)) idxs"
    by (simp add: itertuples_def zip_map_self [symmetric] comp_def)
  have 3: "\<forall>i\<in>set idxs. recommendation_of L sims i (?row i) = Inr (?rec i)"
  proof
    fix i assume i: "i \<in> set idxs"
    with assms have "map_of (zip (columns T) (rows T ! i)) (cp ''id'') = Some (CInt (row_id T i))"
      and "i < length sims" by (simp_all add: int_id_row)
    then show "recommendation_of L sims i (?row i) = Inr (?rec i)"
      by (rule recommendation_of_row)
  qed
  have "collect (map (\<lambda>i. recommendation_of L sims i (?row i)) idxs) = Inr (map ?rec idxs)"
    using 3 by (rule collect_ok)
  then show ?thesis
    by (simp add: recommendations_def 1 2 comp_def)
qed

lemma example_argsort:
  "argsort example_library [1200, 8700, 4500, 8700, 300, 6000] = [4, 0, 2, 5, 1, 3]"
proof -
  have "[0..<6] = [0, 1, 2, 3, 4, 5::nat]"
    by (simp add: upt_rec)
  then show ?thesis
    by (simp add: example_library_def stable_argsort_def)
qed

text \<open>
  C1. Let the body carry a string under \<open>text\<close>, let \<open>argsort\<close> return an ascending
  permutation of the indices of the similarity vector, and let the metadata table have
  one row with an integer \<open>id\<close> for each of the \<open>n\<close> scores. Then \<open>/recommend\<close> answers
  200 with exactly \<open>min 5 n\<close> recommendations, built in this order from the rows at the
  indices \<open>idxs\<close> chosen in line 152; these indices are distinct positions of the vector,
  their scores are listed in non-increasing order, and no position left out has a
  score above one of them.
\<close>

theorem recommend_jobs_top5:
  fixes L :: "'a::linorder library" and G :: "'a globals"
  assumes body: "map_of kvs (cp ''text'') = Some (JStr s)"
    and sims: "sims = similarities G (basic_preprocess (lower_non_ascii L) s)"
    and idxs: "idxs = top_indices (argsort L sims)"
    and order: "is_argsort sims (argsort L sims)"
    and aligned: "length (rows (job_metadata G)) = length sims"
    and ids: "has_int_ids (job_metadata G)"
  shows "\<exists>recs.
      recommend_jobs L G (JObj kvs) = ([Normalize, Vectorize, Rank], Inr (200, Recommendations recs)) \<and>
      length recs = min 5 (length sims) \<and>
      map job_id recs = map (row_id (job_metadata G)) idxs \<and>
      map similarity_score recs = map (\<lambda>i. round4 L (sims ! i)) idxs \<and>
      distinct idxs \<and> (\<forall>i\<in>set idxs. i < length sims) \<and>
      sorted_wrt (\<ge>) (map (\<lambda>i. sims ! i) idxs) \<and>
      (\<forall>j<length sims. j \<notin> set idxs \<longrightarrow> (\<forall>i\<in>set idxs. sims ! j \<le> sims ! i))"
proof -
  let ?p = "argsort L sims"
  let ?rec = "\<lambda>i. \<lparr>job_id = row_id (job_metadata G) i, job_title = CStr (cp ''N/A''),
                     description = CStr [], similarity_score = round4 L (sims ! i)\<rparr>"
  note perm = is_argsort_perm [OF order]
  have srt: "sorted (map (\<lambda>i. sims ! i) ?p)" using order by (simp add: is_argsort_def)
  have len: "length idxs = min 5 (length sims)"
    by (simp add: idxs length_top_indices perm(1))
  have sub: "\<forall>i\<in>set idxs. i < length sims"
    using set_top_indices [of ?p] perm(3) by (auto simp: idxs)
  have dis: "distinct idxs"
    using perm(2) by (simp add: idxs distinct_top_indices)
  have desc: "sorted_wrt (\<ge>) (map (\<lambda>i. sims ! i) idxs)"
    unfolding idxs using srt by (rule descending_top_indices)
  have maxi: "\<forall>j<length sims. j \<notin> set idxs \<longrightarrow> (\<forall>i\<in>set idxs. sims ! j \<le> sims ! i)"
  proof (intro allI impI ballI)
    fix j i assume "j < length sims" "j \<notin> set idxs" "i \<in> set idxs"
    then show "sims ! j \<le> sims ! i"
      using top_indices_maximal [OF srt, of j i] perm(3) by (simp add: idxs)
  qed
  have recs: "recommendations L (job_metadata G) sims idxs = Inr (map ?rec idxs)"
    using sub aligned ids by (intro recommendations_ok) simp_all
  have kv: "kvs \<noteq> []" using body by auto
  have run: "recommend_jobs L G (JObj kvs) =
      ([Normalize, Vectorize, Rank], Inr (200, Recommendations (map ?rec idxs)))"
    using body kv recs sims idxs by (simp add: recommend_jobs_def Let_def)
  show ?thesis
    using run len dis sub desc maxi by (intro exI [of _ "map ?rec idxs"]) (simp add: comp_def)
qed


theorem recommend_jobs_top5_witness:
  "\<exists>recs.
     recommend_jobs example_library example_globals
       (JObj [(cp ''text'', JStr (cp ''Python data engineer''))])
       = ([Normalize, Vectorize, Rank], Inr (200, Recommendations recs)) \<and>
     length recs = 5 \<and>
     map job_id recs = [13, 11, 15, 12, 10] \<and>
     map similarity_score recs = [8700, 8700, 6000, 4500, 1200]"
proof -
  let ?sims = "[1200, 8700, 4500, 8700, 300, 6000] :: int list"
  let ?kvs = "[(cp ''text'', JStr (cp ''Python data engineer''))]"
  have body: "map_of ?kvs (cp ''text'') = Some (JStr (cp ''Python data engineer''))"
    by simp
  have sims: "?sims = similarities example_globals
      (basic_preprocess (lower_non_ascii example_library) (cp ''Python data engineer''))"
    by (simp add: example_globals_def)
  have idxs: "[3, 1, 5, 2, 0] = top_indices (argsort example_library ?sims)"
    by (simp add: example_argsort top_indices_def)
  have order: "is_argsort ?sims (argsort example_library ?sims)"
    by (simp add: example_argsort is_argsort_def upt_rec)
  have aligned: "length (rows (job_metadata example_globals)) = length ?sims"
    by (simp add: example_globals_def example_metadata_def)
  have ids: "has_int_ids (job_metadata example_globals)"
    by (simp add: has_int_ids_def example_globals_def example_metadata_def cp_def)
  have r: "map (row_id (job_metadata example_globals)) [3, 1, 5, 2, 0] = [13, 11, 15, 12, 10]"
    by (simp add: row_id_def example_globals_def example_metadata_def cp_def)
  have q: "map (\<lambda>i. round4 example_library (?sims ! i)) [3, 1, 5, 2, 0]
             = [8700, 8700, 6000, 4500, 1200]"
    by (simp add: example_library_def)
  from recommend_jobs_top5 [OF body sims idxs order aligned ids]
  show ?thesis unfolding r q by auto
qed

text \<open>
  C3. Each recommendation should carry the \<open>Job Title\<close> of its row and the first 300
  characters of its \<open>Job Description\<close>. In the instance every row has both columns, and
  yet every recommendation has the title \<open>N/A\<close> and an empty description: the named
  tuples of \<open>itertuples\<close> rename a column whose name has a space to a positional field,
  so \<open>_asdict()\<close> never has the keys the handler asks for. The \<open>job_id\<close> and the score
  are those of the row.
\<close>

theorem recommend_jobs_drops_title:
  "map (\<lambda>r. map_of (zip (columns example_metadata) r) (cp ''Job Title'')) (rows example_metadata)
     = [Some (CStr (cp ''Data Engineer'')), Some (CStr (cp ''Nurse'')), Some (CStr (cp ''Accountant'')),
        Some (CStr (cp ''Chef'')), Some (CStr (cp ''Auditor'')), Some (CStr (cp ''Teacher''))] \<and>
   recommend_jobs example_library example_globals
     (JObj [(cp ''text'', JStr (cp ''Python data engineer''))])
     = ([Normalize, Vectorize, Rank],
        Inr (200, Recommendations
          [\<lparr>job_id = 13, job_title = CStr (cp ''N/A''), description = CStr [], similarity_score = 8700\<rparr>,
           \<lparr>job_id = 11, job_title = CStr (cp ''N/A''), description = CStr [], similarity_score = 8700\<rparr>,
           \<lparr>job_id = 15, job_title = CStr (cp ''N/A''), description = CStr [], similarity_score = 6000\<rparr>,
           \<lparr>job_id = 12, job_title = CStr (cp ''N/A''), description = CStr [], similarity_score = 4500\<rparr>,
           \<lparr>job_id = 10, job_title = CStr (cp ''N/A''), description = CStr [], similarity_score = 1200\<rparr>]))"
proof -
  let ?sims = "[1200, 8700, 4500, 8700, 300, 6000] :: int list"
  have t: "map (\<lambda>r. map_of (zip (columns example_metadata) r) (cp ''Job Title'')) (rows example_metadata)
     = [Some (CStr (cp ''Data Engineer'')), Some (CStr (cp ''Nurse'')), Some (CStr (cp ''Accountant'')),
        Some (CStr (cp ''Chef'')), Some (CStr (cp ''Auditor'')), Some (CStr (cp ''Teacher''))]"
    by (simp add: example_metadata_def cp_def)
  have ids: "has_int_ids example_metadata"
    by (simp add: has_int_ids_def example_metadata_def cp_def)
  have r: "map (row_id example_metadata) [3, 1, 5, 2, 0] = [13, 11, 15, 12, 10]"
    by (simp add: row_id_def example_metadata_def cp_def)
  have "recommendations example_library example_metadata ?sims [3, 1, 5, 2, 0] =
    Inr (map (\<lambda>i. \<lparr>job_id = row_id example_metadata i, job_title = CStr (cp ''N/A''),
                     description = CStr [], similarity_score = round4 example_library (?sims ! i)\<rparr>)
        [3, 1, 5, 2, 0])"
    using ids by (intro recommendations_ok) (simp_all add: example_metadata_def)
  then have "recommendations example_library example_metadata ?sims [3, 1, 5, 2, 0] =
    Inr [\<lparr>job_id = 13, job_title = CStr (cp ''N/A''), description = CStr [], similarity_score = 8700\<rparr>,
           \<lparr>job_id = 11, job_title = CStr (cp ''N/A''), description = CStr [], similarity_score = 8700\<rparr>,
           \<lparr>job_id = 15, job_title = CStr (cp ''N/A''), description = CStr [], similarity_score = 6000\<rparr>,
           \<lparr>job_id = 12, job_title = CStr (cp ''N/A''), description = CStr [], similarity_score = 4500\<rparr>,
           \<lparr>job_id = 10, job_title = CStr (cp ''N/A''), description = CStr [], similarity_score = 1200\<rparr>]"
    using r by (simp add: example_library_def)
  then have "recommend_jobs example_library example_globals
     (JObj [(cp ''text'', JStr (cp ''Python data engineer''))])
     = ([Normalize, Vectorize, Rank],
        Inr (200, Recommendations
          [\<lparr>job_id = 13, job_title = CStr (cp ''N/A''), description = CStr [], similarity_score = 8700\<rparr>,
           \<lparr>job_id = 11, job_title = CStr (cp ''N/A''), description = CStr [], similarity_score = 8700\<rparr>,
           \<lparr>job_id = 15, job_title = CStr (cp ''N/A''), description = CStr [], similarity_score = 6000\<rparr>,
           \<lparr>job_id = 12, job_title = CStr (cp ''N/A''), description = CStr [], similarity_score = 4500\<rparr>,
           \<lparr>job_id = 10, job_title = CStr (cp ''N/A''), description = CStr [], similarity_score = 1200\<rparr>]))"
    using example_argsort
    by (simp add: recommend_jobs_def Let_def example_globals_def top_indices_def)
  with t show ?thesis by (intro conjI)
qed





end
